theory Spec2Isabelle
  imports Main
begin

section \<open>Strings and the key normalizer \<open>slugify\<close>\<close>

text \<open>
  The page \<open>routes/people/[id]/+page.svelte\<close> defines, inside \<open>processSearchResults\<close>
  (and again in four sibling handlers and in the add-person page),
  \<^verbatim>\<open>
  const slugify = (s: string) =>
      s.trim().toLowerCase().replace(/\s+/g, '_').replace(/[^a-z0-9_-]/g, '');
  \<close>
  A string is a list of characters; a character stands for the code unit with the same
  number, so the model covers the code units 0 to 255. In that range the characters that
  \<open>trim\<close> and the class \<open>\s\<close> treat as white space are TAB, LF, VT, FF, CR, SPACE and
  NO-BREAK SPACE, and \<open>toLowerCase\<close> moves A to Z and the accented capitals 192 to 222
  (without the multiplication sign 215) up by 32.
\<close>

definition is_ws :: "char \<Rightarrow> bool" where
  "is_ws c = ((of_char c :: nat) \<in> {9, 10, 11, 12, 13, 32, 160})"

definition to_lower_char :: "char \<Rightarrow> char" where
  "to_lower_char c =
     (let n = (of_char c :: nat)
      in if (65 \<le> n \<and> n \<le> 90) \<or> (192 \<le> n \<and> n \<le> 222 \<and> n \<noteq> 215)
         then char_of (n + 32) else c)"

text \<open>The characters of the class \<open>[a-z0-9_-]\<close>.\<close>

definition is_slug_char :: "char \<Rightarrow> bool" where
  "is_slug_char c =
     (let n = (of_char c :: nat)
      in (97 \<le> n \<and> n \<le> 122) \<or> (48 \<le> n \<and> n \<le> 57) \<or> n = 95 \<or> n = 45)"

text \<open>\<open>s.trim()\<close>: white space is removed from the start, then from the end.\<close>

fun trimStart :: "string \<Rightarrow> string" where
  "trimStart [] = []"
| "trimStart (c # cs) = (if is_ws c then trimStart cs else c # cs)"

definition trimEnd :: "string \<Rightarrow> string" where
  "trimEnd s = rev (trimStart (rev s))"

definition trim :: "string \<Rightarrow> string" where
  "trim s = trimEnd (trimStart s)"

definition toLowerCase :: "string \<Rightarrow> string" where
  "toLowerCase s = map to_lower_char s"

text \<open>
  \<open>.replace(/\s+/g, '_')\<close>: the scan goes from left to right; where the pattern matches,
  the match is the longest run of white space starting there (the quantifier is greedy), it
  is replaced by one underscore and the scan goes on behind the match; where it does not
  match, the character is copied.
\<close>

function replace_ws_runs :: "string \<Rightarrow> string" where
  "replace_ws_runs [] = []"
| "replace_ws_runs (c # cs) =
     (if is_ws c then CHR ''_'' # replace_ws_runs (dropWhile is_ws cs)
      else c # replace_ws_runs cs)"
  by pat_completeness auto
termination
  by (relation "measure length") (auto simp: length_dropWhile_le less_Suc_eq_le)

text \<open>\<open>.replace(/[^a-z0-9_-]/g, '')\<close>: every single character outside the class is dropped.\<close>

fun strip_non_slug :: "string \<Rightarrow> string" where
  "strip_non_slug [] = []"
| "strip_non_slug (c # cs) =
     (if \<not> is_slug_char c then strip_non_slug cs else c # strip_non_slug cs)"

definition slugify :: "string \<Rightarrow> string" where
  "slugify s = strip_non_slug (replace_ws_runs (toLowerCase (trim s)))"

subsection \<open>The normalizer as the specification words it\<close>

text \<open>
  The specification's \<open>normalize\<close>: trim surrounding whitespace, lowercase, replace runs of
  whitespace with a single underscore, strip every character outside \<open>[a-z0-9_-]\<close>. Each
  step is written here without recursion, from library functions on lists:
  the surrounding white space is the longest white prefix and the longest white suffix; a
  run becomes one underscore when every white character that follows a white character is
  deleted and each remaining white character is turned into an underscore.
\<close>

definition trim_spec :: "string \<Rightarrow> string" where
  "trim_spec s =
     (let t = dropWhile is_ws s
      in take (length t - length (takeWhile is_ws (rev t))) t)"

definition keep_run_heads :: "char \<Rightarrow> string \<Rightarrow> string" where
  "keep_run_heads p s =
     map snd (filter (\<lambda>(before, c). \<not> (is_ws before \<and> is_ws c)) (zip (p # s) s))"

definition runs_to_underscore_spec :: "string \<Rightarrow> string" where
  "runs_to_underscore_spec s =
     map (\<lambda>c. if is_ws c then CHR ''_'' else c) (keep_run_heads (CHR ''x'') s)"

definition normalize_spec :: "string \<Rightarrow> string" where
  "normalize_spec label =
     filter is_slug_char (runs_to_underscore_spec (map to_lower_char (trim_spec label)))"

section \<open>JavaScript values\<close>

text \<open>
  The results of a search job and the person record reach the page as parsed JSON of type
  \<open>any\<close>. An object is the list of its own properties in the order in which
  \<open>Object.entries\<close> enumerates them. A number is modelled by an integer (a fraction
  or a number beyond the exactly represented integers is outside the model): the code
  tests numbers for being zero and, in a template string, writes their decimal digits.
\<close>

datatype jsval =
    JUndefined
  | JNull
  | JBool bool
  | JNum int
  | JStr string
  | JArr "jsval list"
  | JObj "(string \<times> jsval) list"

text \<open>The value as a condition (\<open>!v\<close>, \<open>a && b\<close>, \<open>a || b\<close>).\<close>

fun truthy :: "jsval \<Rightarrow> bool" where
  "truthy JUndefined = False"
| "truthy JNull = False"
| "truthy (JBool b) = b"
| "truthy (JNum n) = (n \<noteq> 0)"
| "truthy (JStr s) = (s \<noteq> [])"
| "truthy (JArr vs) = True"
| "truthy (JObj kvs) = True"

text \<open>\<open>typeof v === 'object'\<close>.\<close>

fun typeof_object :: "jsval \<Rightarrow> bool" where
  "typeof_object JNull = True"
| "typeof_object (JArr vs) = True"
| "typeof_object (JObj kvs) = True"
| "typeof_object v = False"

text \<open>
  \<open>v.name\<close> for the names the page reads (\<open>socials\<close>, \<open>status\<close>, \<open>url_user\<close>,
  \<open>username\<close>): a missing property is \<open>undefined\<close>, and an array, a string, a number or
  a boolean has none of them. The read of a property of \<open>null\<close> or \<open>undefined\<close> raises
  a \<open>TypeError\<close>: \<open>processSearchResults\<close> reads a property only of a value it has
  tested to be truthy, and \<open>poll\<close>, which reads \<open>jobStatus.status\<close> untested, has a
  branch of its own for this error.
\<close>

fun get_prop :: "jsval \<Rightarrow> string \<Rightarrow> jsval" where
  "get_prop (JObj kvs) name = (case map_of kvs name of None \<Rightarrow> JUndefined | Some v \<Rightarrow> v)"
| "get_prop v name = JUndefined"

text \<open>A length or an index in a template string: its decimal digits.\<close>

fun show_nat :: "nat \<Rightarrow> string" where
  "show_nat n =
     (if n < 10 then [char_of (48 + n)]
      else show_nat (n div 10) @ [char_of (48 + n mod 10)])"

declare show_nat.simps [simp del]

definition show_int :: "int \<Rightarrow> string" where
  "show_int n = (if n < 0 then CHR ''-'' # show_nat (nat (- n)) else show_nat (nat n))"

text \<open>
  A value inside a template string (\<open>`Status: ${v}`\<close>) is converted to a string. For a
  parsed JSON object the conversion calls \<open>toString\<close>: the inherited one gives
  \<open>[object Object]\<close>, but an own property of that name is not callable, and then the
  conversion raises a \<open>TypeError\<close>. An array joins the strings of its elements with
  commas, \<open>null\<close> and \<open>undefined\<close> elements counting as empty; the conversion of an
  element can raise in turn.
\<close>

fun stringifiable :: "jsval \<Rightarrow> bool" where
  "stringifiable (JObj kvs) = (''toString'' \<notin> set (map fst kvs))"
| "stringifiable (JArr vs) = list_all stringifiable vs"
| "stringifiable v = True"

fun join_strings :: "string list \<Rightarrow> string" where
  "join_strings [] = []"
| "join_strings [s] = s"
| "join_strings (s # t # ss) = s @ '','' @ join_strings (t # ss)"

fun to_string :: "jsval \<Rightarrow> string" where
  "to_string JUndefined = ''undefined''"
| "to_string JNull = ''null''"
| "to_string (JBool b) = (if b then ''true'' else ''false'')"
| "to_string (JNum n) = show_int n"
| "to_string (JStr s) = s"
| "to_string (JArr vs) =
     join_strings (map (\<lambda>v. if v = JNull \<or> v = JUndefined then [] else to_string v) vs)"
| "to_string (JObj kvs) = ''[object Object]''"

text \<open>\<open>a || b\<close> on values.\<close>

definition js_or :: "jsval \<Rightarrow> jsval \<Rightarrow> jsval" where
  "js_or a b = (if truthy a then a else b)"

text \<open>
  \<open>Object.entries\<close>, \<open>Object.keys\<close> and \<open>Object.values\<close>: the properties of an object,
  the indices of an array or of a string, nothing for the other values.
\<close>

fun object_entries :: "jsval \<Rightarrow> (string \<times> jsval) list" where
  "object_entries (JObj kvs) = kvs"
| "object_entries (JArr vs) = zip (map show_nat [0..<length vs]) vs"
| "object_entries (JStr s) = zip (map show_nat [0..<length s]) (map (\<lambda>c. JStr [c]) s)"
| "object_entries v = []"

definition object_keys :: "jsval \<Rightarrow> string list" where
  "object_keys v = map fst (object_entries v)"

definition object_values :: "jsval \<Rightarrow> jsval list" where
  "object_values v = map snd (object_entries v)"

section \<open>The state of the person page\<close>

text \<open>An entry of \<open>searchResults\<close>, as \<open>foundAccounts.push\<close> builds it.\<close>

record candidate =
  platform :: string
  url :: jsval
  handle :: jsval
  displayName :: string

text \<open>
  What the page does to the outside while it tracks a job: a status request to the job
  backend (\<open>api.get_sherlock_job_status\<close>, a GET of \<open>/sherlock/queue/<job id>\<close>; the
  effect carries the job id as written into the path), a timer, and the reload of the list
  of recent jobs.
\<close>

datatype effect =
    GetJobStatus string
  | SetTimeout nat
  | LoadRecentJobs

text \<open>
  The variables of the component that \<open>pollSearchResults\<close> and \<open>processSearchResults\<close>
  read and write, and the effects issued so far. \<open>searchError\<close> and \<open>searchJobId\<close> are
  declared \<open>string | null\<close>, but the page stores parts of untyped answers of the backend
  in them (\<open>jobStatus.error\<close>, \<open>queueResponse.job_id\<close>), so they hold any value;
  \<open>searchJobStatus\<close> only ever holds a string the page has built (\<open>null\<close> is
  \<open>None\<close>).
\<close>

record component =
  person :: jsval
  searchResults :: "candidate list"
  searchError :: jsval
  searchJobId :: jsval
  searchJobStatus :: "string option"
  searchingAccounts :: bool
  searchJobPolling :: bool
  effects :: "effect list"

text \<open>What the code can throw: an error object of one of three kinds, with its message.\<close>

datatype js_error =
    ReferenceError string
  | TypeError string
  | Error string

fun message :: "js_error \<Rightarrow> string" where
  "message (ReferenceError m) = m"
| "message (TypeError m) = m"
| "message (Error m) = m"

section \<open>Reconciliation: \<open>processSearchResults\<close>\<close>

text \<open>
  \<^verbatim>\<open>
  const existingSocials = new Set();
  if (person.socials) {
      for (const key of Object.keys(person.socials)) existingSocials.add(slugify(key));
  }
  \<close>
\<close>

definition existingSocials :: "jsval \<Rightarrow> string set" where
  "existingSocials p =
     (if truthy (get_prop p ''socials'')
      then fold (\<lambda>key known. insert (slugify key) known) (object_keys (get_prop p ''socials'')) {}
      else {})"

text \<open>
  The loop over \<open>Object.entries(results)\<close>, with \<open>foundAccounts\<close> as accumulator.
  In \<open>handle: res.username || searchUsername\<close> the name \<open>searchUsername\<close> is bound
  nowhere in the scope of \<open>processSearchResults\<close>: it is a local variable of
  \<open>searchSocialAccounts\<close>, the variable of the component is \<open>currentSearchUsername\<close>,
  and nothing in the sources defines a global of that name.
  So when \<open>res.username\<close> is falsy the right operand is evaluated and raises a
  \<open>ReferenceError\<close>; when it is truthy the right operand is not evaluated.
\<close>

fun scan_results ::
  "string set \<Rightarrow> (string \<times> jsval) list \<Rightarrow> candidate list \<Rightarrow> js_error + candidate list" where
  "scan_results known [] foundAccounts = Inr foundAccounts"
| "scan_results known ((siteName, result) # rest) foundAccounts =
     (if truthy result \<and> typeof_object result then
        if get_prop result ''status'' = JStr ''Claimed'' \<and> truthy (get_prop result ''url_user'') then
          let platformSlug = slugify siteName in
          if platformSlug \<in> known then scan_results known rest foundAccounts
          else if truthy (get_prop result ''username'') then
            scan_results known rest
              (foundAccounts @
                [\<lparr>platform = platformSlug, url = get_prop result ''url_user'',
                  handle = get_prop result ''username'', displayName = siteName\<rparr>])
          else Inl (ReferenceError ''searchUsername is not defined'')
        else scan_results known rest foundAccounts
      else scan_results known rest foundAccounts)"

text \<open>
  \<^verbatim>\<open>
  const totalClaimed = Object.values(results).filter(
      (r) => r && typeof r === 'object' && (r as any).status === 'Claimed').length;
  \<close>
\<close>

definition totalClaimed :: "jsval \<Rightarrow> nat" where
  "totalClaimed results =
     length (filter (\<lambda>r. truthy r \<and> typeof_object r \<and> get_prop r ''status'' = JStr ''Claimed'')
       (object_values results))"

text \<open>
  The whole function. It returns at once when \<open>results\<close> or \<open>person\<close> is falsy; an
  exception leaves the component as it was, since \<open>searchResults\<close> is assigned after the
  loop. \<open>skippedCount\<close> is computed only where \<open>foundAccounts.length\<close> is 0, so the
  subtraction is exact on natural numbers.
\<close>

definition processSearchResults :: "jsval \<Rightarrow> component \<Rightarrow> js_error + component" where
  "processSearchResults results c =
     (if \<not> truthy results then Inr c
      else if \<not> truthy (person c) then Inr c
      else
        case scan_results (existingSocials (person c)) (object_entries results) [] of
          Inl err \<Rightarrow> Inl err
        | Inr foundAccounts \<Rightarrow>
            (let c1 = c\<lparr>searchResults := foundAccounts\<rparr>
             in if length foundAccounts = 0 then
                  (let skippedCount = totalClaimed results - length foundAccounts
                   in if skippedCount > 0 then
                        Inr (c1\<lparr>searchError := JStr (''No new social accounts found (''
                               @ show_nat skippedCount @ '' platforms already added)'')\<rparr>)
                      else Inr (c1\<lparr>searchError := JStr ''No social accounts found''\<rparr>))
                else
                  Inr (c1\<lparr>searchJobStatus := Some (''Found ''
                         @ show_nat (length foundAccounts) @ '' new social accounts'')\<rparr>)))"

text \<open>
  The variables of the component as the page declares them, before any search, for a
  loaded person record.
\<close>

definition initial :: "jsval \<Rightarrow> component" where
  "initial p =
     \<lparr>person = p, searchResults = [], searchError = JNull, searchJobId = JNull,
      searchJobStatus = None, searchingAccounts = False, searchJobPolling = False,
      effects = []\<rparr>"

subsection \<open>The branches of the loop body, named\<close>

text \<open>
  An entry passes the two outer tests of the loop body when the finding is an object whose
  \<open>status\<close> is \<open>'Claimed'\<close> and whose \<open>url_user\<close> is truthy. Such an entry is skipped
  at \<open>existingSocials.has(platformSlug)\<close> when its slug is known, and reaches
  \<open>foundAccounts.push\<close> otherwise; \<open>pushed\<close> is the object the push builds when
  \<open>res.username\<close> is truthy.
\<close>

definition claimed_with_url :: "jsval \<Rightarrow> bool" where
  "claimed_with_url r =
     (truthy r \<and> typeof_object r \<and> get_prop r ''status'' = JStr ''Claimed''
      \<and> truthy (get_prop r ''url_user''))"

definition skipped_as_existing :: "string set \<Rightarrow> string \<times> jsval \<Rightarrow> bool" where
  "skipped_as_existing known e = (claimed_with_url (snd e) \<and> slugify (fst e) \<in> known)"

definition reaches_push :: "string set \<Rightarrow> string \<times> jsval \<Rightarrow> bool" where
  "reaches_push known e = (claimed_with_url (snd e) \<and> slugify (fst e) \<notin> known)"

definition pushed :: "string \<times> jsval \<Rightarrow> candidate" where
  "pushed e =
     \<lparr>platform = slugify (fst e), url = get_prop (snd e) ''url_user'',
      handle = get_prop (snd e) ''username'', displayName = fst e\<rparr>"

definition lacks_username :: "string \<times> jsval \<Rightarrow> bool" where
  "lacks_username e = (\<not> truthy (get_prop (snd e) ''username''))"

section \<open>Tracking a job: \<open>pollSearchResults\<close>\<close>

text \<open>
  The module \<open>$lib/api\<close>:
  \<^verbatim>\<open>
  async function request(path: string, opts: RequestInit = {}) {
      ...
      const res = await fetch(`${BASE}${path}`, { ...opts, headers });
      if (!res.ok) {
          const text = await res.text();
          throw new Error(text || res.statusText);
      }
      return res.json().catch(() => null);
  }
  get_sherlock_job_status: (job_id: string) => request(`/sherlock/queue/${job_id}`),
  \<close>
  So a status request either resolves to the parsed JSON of the answer, of any shape, or
  to \<open>null\<close> when the body does not parse, or it rejects with an error (the one thrown
  above, or the one of a failed \<open>fetch\<close>). The backend is given by the outcome of each
  status request, counted from 0.
\<close>

datatype poll_reply =
    Reply jsval
  | Rejected js_error

text \<open>\<open>a || b\<close> on strings: the empty string is falsy.\<close>

definition or_else :: "string \<Rightarrow> string \<Rightarrow> string" where
  "or_else a b = (if a = [] then b else a)"

text \<open>The \<open>catch\<close> branch of \<open>poll\<close>.\<close>

definition catch_poll :: "js_error \<Rightarrow> component \<Rightarrow> component" where
  "catch_poll err c =
     c\<lparr>searchError := JStr (or_else (message err) ''Failed to check search status''),
       searchingAccounts := False, searchJobPolling := False\<rparr>"

text \<open>
  The messages of the two type errors that \<open>poll\<close> can run into: the conversion of an
  object with an own \<open>toString\<close> to a string, and the read of \<open>status\<close> from
  \<open>null\<close> or \<open>undefined\<close>. The wording is the engine's (here V8's); in every engine
  the message is a non-empty string.
\<close>

definition not_primitive :: js_error where
  "not_primitive = TypeError ''Cannot convert object to primitive value''"

definition no_status_of :: "jsval \<Rightarrow> js_error" where
  "no_status_of v =
     TypeError (''Cannot read properties of '' @ to_string v @ '' (reading 'status')'')"

text \<open>
  The closure \<open>poll\<close>, with the constant \<open>maxAttempts\<close> and the counter \<open>attempts\<close> of
  the enclosing call as arguments. Every earlier call of \<open>poll\<close> has incremented
  \<open>attempts\<close> before it scheduled this one, so the request of this call is request number
  \<open>attempts\<close>. \<open>setTimeout(poll, 5000)\<close> is the effect \<open>SetTimeout 5000\<close> followed by
  the next call. The whole body stands in \<open>try\<close>: writing the job id into the path,
  reading \<open>jobStatus.status\<close> and writing the status into \<open>searchJobStatus\<close> can each
  raise a type error, which the \<open>catch\<close> branch handles like a rejected request.
\<close>

function poll :: "nat \<Rightarrow> (nat \<Rightarrow> poll_reply) \<Rightarrow> nat \<Rightarrow> component \<Rightarrow> component" where
  "poll maxAttempts backend attempts c =
     (if \<not> stringifiable (searchJobId c) then catch_poll not_primitive c
      else
        let c0 = c\<lparr>effects := effects c @ [GetJobStatus (to_string (searchJobId c))]\<rparr>
        in case backend attempts of
             Rejected err \<Rightarrow> catch_poll err c0
           | Reply jobStatus \<Rightarrow>
               if jobStatus = JNull \<or> jobStatus = JUndefined then
                 catch_poll (no_status_of jobStatus) c0
               else if \<not> stringifiable (get_prop jobStatus ''status'') then
                 catch_poll not_primitive c0
               else
                 (let c1 = c0\<lparr>searchJobStatus :=
                                 Some (''Status: '' @ to_string (get_prop jobStatus ''status''))\<rparr>
                  in if get_prop jobStatus ''status'' = JStr ''completed'' then
                       (case processSearchResults (get_prop jobStatus ''results'') c1 of
                          Inl err \<Rightarrow> catch_poll err c1
                        | Inr c2 \<Rightarrow>
                            c2\<lparr>searchingAccounts := False, searchJobPolling := False,
                               effects := effects c2 @ [LoadRecentJobs]\<rparr>)
                     else if get_prop jobStatus ''status'' = JStr ''failed'' then
                       c1\<lparr>searchError := js_or (get_prop jobStatus ''error'') (JStr ''Search failed''),
                          searchingAccounts := False, searchJobPolling := False,
                          effects := effects c1 @ [LoadRecentJobs]\<rparr>
                     else
                       (let c2 = (if get_prop jobStatus ''status'' = JStr ''running''
                                  then c1\<lparr>searchJobStatus := Some ''Search in progress...''\<rparr>
                                  else c1)
                        in if attempts + 1 < maxAttempts
                              \<and> (get_prop jobStatus ''status'' = JStr ''pending''
                                   \<or> get_prop jobStatus ''status'' = JStr ''running'') then
                             poll maxAttempts backend (attempts + 1)
                               (c2\<lparr>effects := effects c2 @ [SetTimeout 5000]\<rparr>)
                           else if attempts + 1 \<ge> maxAttempts then
                             c2\<lparr>searchError := JStr ''Search timed out - check results later'',
                                searchingAccounts := False, searchJobPolling := False\<rparr>
                           else c2)))"
  by pat_completeness auto
termination
  by (relation "measure (\<lambda>(maxAttempts, backend, attempts, c). maxAttempts - attempts)") auto

declare poll.simps [simp del]

text \<open>
  \<^verbatim>\<open>
  async function pollSearchResults() {
      if (!searchJobId) return;
      searchJobPolling = true;
      const maxAttempts = 60;
      let attempts = 0;
      const poll = async () => { ... };
      poll();
  }
  \<close>
\<close>

definition pollSearchResults :: "(nat \<Rightarrow> poll_reply) \<Rightarrow> component \<Rightarrow> component" where
  "pollSearchResults backend c =
     (if \<not> truthy (searchJobId c) then c
      else poll 60 backend 0 (c\<lparr>searchJobPolling := True\<rparr>))"

text \<open>The number of status requests among the effects.\<close>

definition polls_issued :: "component \<Rightarrow> nat" where
  "polls_issued c = length (filter (\<lambda>e. case e of GetJobStatus j \<Rightarrow> True | _ \<Rightarrow> False) (effects c))"

text \<open>
  What \<open>poll\<close> shows in \<open>searchJobStatus\<close> for a status that is neither completed nor
  failed.
\<close>

definition status_label :: "jsval \<Rightarrow> string" where
  "status_label st =
     (if st = JStr ''running'' then ''Search in progress...'' else ''Status: '' @ to_string st)"

text \<open>
  An answer after which \<open>poll\<close> goes on (its \<open>status\<close> is pending or running), and an
  answer that reports a terminal state (its \<open>status\<close> is completed or failed).
\<close>

definition waiting :: "poll_reply \<Rightarrow> bool" where
  "waiting r =
     (case r of
        Reply v \<Rightarrow> get_prop v ''status'' = JStr ''pending'' \<or> get_prop v ''status'' = JStr ''running''
      | Rejected err \<Rightarrow> False)"

definition terminal :: "poll_reply \<Rightarrow> bool" where
  "terminal r =
     (case r of
        Reply v \<Rightarrow> get_prop v ''status'' = JStr ''completed'' \<or> get_prop v ''status'' = JStr ''failed''
      | Rejected err \<Rightarrow> False)"

text \<open>
  The component as \<open>searchSocialAccounts\<close> leaves it when the backend has accepted the
  search and answered with the job id \<open>jobId\<close>, just before it calls
  \<open>pollSearchResults\<close>.
\<close>

definition queued :: "string \<Rightarrow> jsval \<Rightarrow> component" where
  "queued jobId p =
     (initial p)\<lparr>searchingAccounts := True, searchJobId := JStr jobId,
                 searchJobStatus := Some ''Search queued successfully''\<rparr>"

section \<open>Properties of the key normalizer\<close>

lemma trimStart_dropWhile: "trimStart s = dropWhile is_ws s"
  by (induction s) auto

lemma trimEnd_take:
  "trimEnd t = take (length t - length (takeWhile is_ws (rev t))) t"
proof -
  have "rev (dropWhile is_ws (rev t)) = rev (drop (length (takeWhile is_ws (rev t))) (rev t))"
    by (simp add: dropWhile_eq_drop)
  also have "\<dots> = take (length t - length (takeWhile is_ws (rev t))) t"
    by (simp add: rev_drop)
  finally show ?thesis
    by (simp add: trimEnd_def trimStart_dropWhile)
qed

lemma trim_eq_spec: "trim s = trim_spec s"
  by (simp add: trim_def trim_spec_def trimEnd_take trimStart_dropWhile Let_def)

lemma keep_run_heads_Nil [simp]: "keep_run_heads p [] = []"
  by (simp add: keep_run_heads_def)

lemma keep_run_heads_Cons:
  "keep_run_heads p (c # cs) =
     (if is_ws p \<and> is_ws c then keep_run_heads c cs else c # keep_run_heads c cs)"
  by (simp add: keep_run_heads_def)

lemma keep_run_heads_same_class:
  "is_ws p = is_ws q \<Longrightarrow> keep_run_heads p cs = keep_run_heads q cs"
  by (cases cs) (simp_all add: keep_run_heads_Cons)

lemma keep_run_heads_nonws_head:
  "s = [] \<or> \<not> is_ws (hd s) \<Longrightarrow> keep_run_heads p s = keep_run_heads q s"
  by (cases s) (simp_all add: keep_run_heads_Cons)

lemma keep_run_heads_skip:
  "is_ws p \<Longrightarrow> keep_run_heads p (dropWhile is_ws cs) = keep_run_heads p cs"
proof (induction cs)
  case Nil
  then show ?case by simp
next
  case (Cons c cs)
  show ?case
  proof (cases "is_ws c")
    case True
    have "keep_run_heads p (c # cs) = keep_run_heads c cs"
      using True Cons.prems by (simp add: keep_run_heads_Cons)
    also have "\<dots> = keep_run_heads p cs"
      using True Cons.prems by (intro keep_run_heads_same_class) simp
    finally show ?thesis
      using True Cons by simp
  next
    case False
    then show ?thesis by simp
  qed
qed

lemma replace_ws_runs_heads_from:
  "\<not> is_ws p \<Longrightarrow>
   replace_ws_runs s = map (\<lambda>c. if is_ws c then CHR ''_'' else c) (keep_run_heads p s)"
proof (induction s arbitrary: p rule: replace_ws_runs.induct)
  case 1
  then show ?case by simp
next
  case (2 c cs)
  show ?case
  proof (cases "is_ws c")
    case True
    have "dropWhile is_ws cs = [] \<or> \<not> is_ws (hd (dropWhile is_ws cs))"
      using hd_dropWhile [of is_ws cs] by blast
    then have "keep_run_heads c (dropWhile is_ws cs) = keep_run_heads p (dropWhile is_ws cs)"
      by (rule keep_run_heads_nonws_head)
    moreover have "keep_run_heads c (dropWhile is_ws cs) = keep_run_heads c cs"
      using True by (simp add: keep_run_heads_skip)
    ultimately show ?thesis
      using True "2.prems" "2.IH"(1) [OF True "2.prems"]
      by (simp add: keep_run_heads_Cons)
  next
    case False
    then show ?thesis
      using "2.prems" "2.IH"(2) [OF False False]
      by (simp add: keep_run_heads_Cons)
  qed
qed

lemma replace_ws_runs_heads: "replace_ws_runs s = runs_to_underscore_spec s"
  unfolding runs_to_underscore_spec_def
  by (rule replace_ws_runs_heads_from) (simp add: is_ws_def)

lemma strip_non_slug_filter: "strip_non_slug s = filter is_slug_char s"
  by (induction s) auto

lemma slugify_eq_normalize_spec: "slugify s = normalize_spec s"
  by (simp add: slugify_def normalize_spec_def strip_non_slug_filter
      replace_ws_runs_heads toLowerCase_def trim_eq_spec)

lemma slugify_chars: "c \<in> set (slugify s) \<Longrightarrow> is_slug_char c"
  by (simp add: slugify_def strip_non_slug_filter)

lemma slug_char_not_ws: "is_slug_char c \<Longrightarrow> \<not> is_ws c"
  by (auto simp: is_slug_char_def is_ws_def Let_def)

lemma slug_char_lower: "is_slug_char c \<Longrightarrow> to_lower_char c = c"
  by (auto simp: is_slug_char_def to_lower_char_def Let_def)

lemma trimStart_no_ws: "\<forall>c\<in>set s. \<not> is_ws c \<Longrightarrow> trimStart s = s"
  by (cases s) auto

lemma trim_no_ws: "\<forall>c\<in>set s. \<not> is_ws c \<Longrightarrow> trim s = s"
  by (simp add: trim_def trimEnd_def trimStart_no_ws)

lemma replace_ws_runs_no_ws: "\<forall>c\<in>set s. \<not> is_ws c \<Longrightarrow> replace_ws_runs s = s"
  by (induction s) auto

lemma slugify_canonical:
  assumes "\<forall>c\<in>set k. is_slug_char c"
  shows "slugify k = k"
proof -
  from assms have nows: "\<forall>c\<in>set k. \<not> is_ws c"
    by (auto dest: slug_char_not_ws)
  from assms have low: "map to_lower_char k = k"
    by (simp add: map_idI slug_char_lower)
  from assms have "filter is_slug_char k = k"
    by simp
  with nows low show ?thesis
    by (simp add: slugify_def toLowerCase_def trim_no_ws replace_ws_runs_no_ws
        strip_non_slug_filter)
qed

lemma fold_insert_image:
  "fold (\<lambda>key known. insert (f key) known) ks K = f ` set ks \<union> K"
  by (induction ks arbitrary: K) auto

lemma existingSocials_image:
  "existingSocials p =
     (if truthy (get_prop p ''socials'')
      then slugify ` set (object_keys (get_prop p ''socials'')) else {})"
  by (simp add: existingSocials_def fold_insert_image)

lemma slugify_slug: "list_all is_slug_char (slugify s)"
  by (simp add: list_all_iff slugify_chars)

lemma slugify_fixes_slug: "list_all is_slug_char k \<Longrightarrow> slugify k = k"
  by (simp add: list_all_iff slugify_canonical)

section \<open>The claims about the key normalizer\<close>

text \<open>
  Claim C4. \<open>slugify\<close> is a total function of its argument alone, and on every string
  it computes what the specification's \<open>normalize\<close> describes: the string trimmed of
  surrounding white space, lowercased, each run of white space replaced by one underscore,
  every character outside \<open>[a-z0-9_-]\<close> removed. On \<open>" My Cool Site! "\<close> the result is
  \<open>"my_cool_site"\<close>.
\<close>

theorem slugify_is_normalize:
  "slugify s = normalize_spec s
   \<and> list_all is_slug_char (slugify s)
   \<and> slugify '' My Cool Site! '' = ''my_cool_site''"
proof -
  have "slugify '' My Cool Site! '' = ''my_cool_site''"
    by code_simp
  then show ?thesis
    by (simp only: slugify_eq_normalize_spec [symmetric] slugify_slug simp_thms)
qed

text \<open>
  Claim C10. \<open>slugify\<close> is idempotent and its result consists of characters of
  \<open>[a-z0-9_-]\<close> only; a key that consists of such characters is left as it is, so when
  every key of \<open>person.socials\<close> is canonical, the set \<open>existingSocials\<close> that
  reconciliation builds by normalizing the keys again is the set of the keys themselves.
\<close>

theorem slugify_idempotent:
  "slugify (slugify s) = slugify s
   \<and> list_all is_slug_char (slugify s)
   \<and> (list_all is_slug_char k \<longrightarrow> slugify k = k)
   \<and> (truthy (get_prop p ''socials'')
        \<and> list_all (list_all is_slug_char) (object_keys (get_prop p ''socials''))
        \<longrightarrow> existingSocials p = set (object_keys (get_prop p ''socials'')))"
proof (intro conjI impI)
  show "slugify (slugify s) = slugify s"
    by (rule slugify_fixes_slug) (rule slugify_slug)
  show "list_all is_slug_char (slugify s)"
    by (rule slugify_slug)
  show "slugify k = k" if "list_all is_slug_char k"
    using that by (rule slugify_fixes_slug)
  show "existingSocials p = set (object_keys (get_prop p ''socials''))"
    if h: "truthy (get_prop p ''socials'')
           \<and> list_all (list_all is_slug_char) (object_keys (get_prop p ''socials''))"
  proof -
    from h have "\<forall>key\<in>set (object_keys (get_prop p ''socials'')). slugify key = key"
      by (simp add: list_all_iff slugify_fixes_slug)
    then have "slugify ` set (object_keys (get_prop p ''socials''))
               = set (object_keys (get_prop p ''socials''))"
      by force
    with h show ?thesis
      by (simp add: existingSocials_image)
  qed
qed

theorem slugify_idempotent_witness:
  "slugify (slugify '' My Cool Site! '') = slugify '' My Cool Site! ''
   \<and> list_all is_slug_char ''my_cool_site''
   \<and> slugify ''my_cool_site'' = ''my_cool_site''
   \<and> truthy (get_prop (JObj [(''socials'', JObj [(''github'', JStr ''jdoe''),
         (''my_cool_site'', JStr ''jd'')])]) ''socials'')
   \<and> list_all (list_all is_slug_char) [''github'', ''my_cool_site'']
   \<and> existingSocials (JObj [(''socials'', JObj [(''github'', JStr ''jdoe''),
         (''my_cool_site'', JStr ''jd'')])]) = {''github'', ''my_cool_site''}"
proof -
  let ?p = "JObj [(''socials'', JObj [(''github'', JStr ''jdoe''), (''my_cool_site'', JStr ''jd'')])]"
  have keys: "object_keys (get_prop ?p ''socials'') = [''github'', ''my_cool_site'']"
    by (simp add: object_keys_def)
  have t: "truthy (get_prop ?p ''socials'')"
    by simp
  have c1: "list_all is_slug_char ''my_cool_site''"
    by code_simp
  have c2: "list_all (list_all is_slug_char) [''github'', ''my_cool_site'']"
    by code_simp
  note inst = slugify_idempotent [of "'' My Cool Site! ''" "''my_cool_site''" ?p]
  from inst c1 have "slugify ''my_cool_site'' = ''my_cool_site''"
    by blast
  moreover from inst t c2 keys
  have "existingSocials ?p = set [''github'', ''my_cool_site'']"
    by simp
  ultimately show ?thesis
    using inst t c1 c2 by simp
qed

section \<open>Properties of reconciliation\<close>

lemma scan_results_step:
  "scan_results known (e # rest) acc =
     (if reaches_push known e then
        if lacks_username e then Inl (ReferenceError ''searchUsername is not defined'')
        else scan_results known rest (acc @ [pushed e])
      else scan_results known rest acc)"
  by (cases e)
    (simp add: reaches_push_def claimed_with_url_def lacks_username_def pushed_def Let_def)

lemma scan_results_closed_form:
  "scan_results known es acc =
     (if list_ex (\<lambda>e. reaches_push known e \<and> lacks_username e) es
      then Inl (ReferenceError ''searchUsername is not defined'')
      else Inr (acc @ map pushed (filter (reaches_push known) es)))"
proof (induction es arbitrary: acc)
  case Nil
  show ?case by simp
next
  case (Cons e es)
  show ?case
    by (simp add: scan_results_step Cons.IH)
qed

lemma processSearchResults_raises_iff:
  "(\<exists>err. processSearchResults resultMap c = Inl err) =
     (truthy resultMap \<and> truthy (person c)
      \<and> list_ex (\<lambda>e. reaches_push (existingSocials (person c)) e \<and> lacks_username e)
           (object_entries resultMap))"
  by (simp add: processSearchResults_def scan_results_closed_form Let_def)

lemma processSearchResults_found:
  assumes "processSearchResults resultMap c = Inr c'" and "truthy resultMap" and "truthy (person c)"
  shows "searchResults c' =
           map pushed (filter (reaches_push (existingSocials (person c))) (object_entries resultMap))"
proof -
  let ?found = "map pushed (filter (reaches_push (existingSocials (person c))) (object_entries resultMap))"
  from assms have "scan_results (existingSocials (person c)) (object_entries resultMap) [] = Inr ?found"
    by (cases "list_ex (\<lambda>e. reaches_push (existingSocials (person c)) e \<and> lacks_username e)
           (object_entries resultMap)")
      (simp_all add: processSearchResults_def scan_results_closed_form)
  with assms show ?thesis
    by (cases "?found = []") (auto simp: processSearchResults_def Let_def split: if_splits)
qed

lemma falsy_no_keys: "\<not> truthy v \<Longrightarrow> object_keys v = []"
  by (cases v) (simp_all add: object_keys_def)

lemma known_key_in_existingSocials:
  "key \<in> set (object_keys (get_prop p ''socials'')) \<Longrightarrow> slugify key \<in> existingSocials p"
  by (cases "truthy (get_prop p ''socials'')") (auto simp: existingSocials_image falsy_no_keys)


section \<open>The claims about reconciliation\<close>

text \<open>
  Claim C1 says that \<open>processSearchResults\<close> never throws, and that a finding with a
  missing observed handle is simply not emitted. The code does throw: for a finding that
  is claimed, has a URL, is not known yet and has no \<open>username\<close>, the fallback
  \<open>searchUsername\<close> is evaluated and is not defined. Here the registry holds
  \<open>github\<close> and the result map holds a claimed Reddit finding without \<open>username\<close>.
\<close>

theorem processSearchResults_raises:
  "processSearchResults
     (JObj [(''Reddit'', JObj [(''status'', JStr ''Claimed''),
                               (''url_user'', JStr ''https://www.reddit.com/user/jdoe'')])])
     (initial (JObj [(''socials'', JObj [(''github'', JStr ''jdoe'')])]))
   = Inl (ReferenceError ''searchUsername is not defined'')"
  by code_simp

text \<open>
  Claim C2. When \<open>processSearchResults\<close> has run through on a result map and a person
  record, no entry of \<open>searchResults\<close> has a \<open>platform\<close> equal to the slug of a key of
  \<open>person.socials\<close>, whether that key is itself canonical or not.
\<close>

theorem candidates_never_known:
  assumes "processSearchResults resultMap c = Inr c'" and "truthy resultMap" and "truthy (person c)"
  shows "\<forall>cand\<in>set (searchResults c').
           \<forall>key\<in>set (object_keys (get_prop (person c) ''socials'')).
             platform cand \<noteq> slugify key"
proof (intro ballI)
  fix cand key
  assume cand: "cand \<in> set (searchResults c')"
    and key: "key \<in> set (object_keys (get_prop (person c) ''socials''))"
  from cand processSearchResults_found [OF assms]
  obtain e where e: "reaches_push (existingSocials (person c)) e" and "cand = pushed e"
    by auto
  then have "platform cand = slugify (fst e)"
    by (simp add: pushed_def)
  moreover from e have "slugify (fst e) \<notin> existingSocials (person c)"
    by (simp add: reaches_push_def)
  moreover from key have "slugify key \<in> existingSocials (person c)"
    by (rule known_key_in_existingSocials)
  ultimately show "platform cand \<noteq> slugify key"
    by auto
qed

text \<open>
  An instance: the registry holds the legacy key \<open>GitHub\<close>; of the two claimed findings
  \<open>github\<close> and \<open>Reddit\<close> only the second becomes a candidate.
\<close>

theorem candidates_never_known_witness:
  "processSearchResults
     (JObj [(''github'', JObj [(''status'', JStr ''Claimed''), (''url_user'', JStr ''u1''),
                               (''username'', JStr ''jdoe'')]),
            (''Reddit'', JObj [(''status'', JStr ''Claimed''), (''url_user'', JStr ''u2''),
                               (''username'', JStr ''jdoe'')])])
     (initial (JObj [(''socials'', JObj [(''GitHub'', JStr ''jdoe'')])]))
   = Inr ((initial (JObj [(''socials'', JObj [(''GitHub'', JStr ''jdoe'')])]))
           \<lparr>searchResults := [\<lparr>platform = ''reddit'', url = JStr ''u2'',
                                handle = JStr ''jdoe'', displayName = ''Reddit''\<rparr>],
             searchJobStatus := Some ''Found 1 new social accounts''\<rparr>)
   \<and> ''reddit'' \<noteq> slugify ''GitHub''"
proof -
  let ?rmap = "JObj [(''github'', JObj [(''status'', JStr ''Claimed''), (''url_user'', JStr ''u1''),
                               (''username'', JStr ''jdoe'')]),
            (''Reddit'', JObj [(''status'', JStr ''Claimed''), (''url_user'', JStr ''u2''),
                               (''username'', JStr ''jdoe'')])]"
  let ?c = "initial (JObj [(''socials'', JObj [(''GitHub'', JStr ''jdoe'')])])"
  let ?cand = "\<lparr>platform = ''reddit'', url = JStr ''u2'', handle = JStr ''jdoe'',
                displayName = ''Reddit''\<rparr>"
  let ?c' = "?c\<lparr>searchResults := [?cand], searchJobStatus := Some ''Found 1 new social accounts''\<rparr>"
  have run: "processSearchResults ?rmap ?c = Inr ?c'"
    by code_simp
  have t1: "truthy ?rmap"
    by simp
  have t2: "truthy (person ?c)"
    by (simp add: initial_def)
  have keys: "object_keys (get_prop (person ?c) ''socials'') = [''GitHub'']"
    by (simp add: initial_def object_keys_def)
  from candidates_never_known [OF run t1 t2] keys
  have "platform ?cand \<noteq> slugify ''GitHub''"
    by simp
  with run show ?thesis
    by simp
qed

text \<open>
  Claim C6 says that \<open>skippedExisting\<close> counts the claimed findings skipped because their
  key is already known, and that an outcome without candidates tells "all already known"
  from "found nothing". The code takes \<open>skippedCount = totalClaimed - foundAccounts.length\<close>,
  and \<open>totalClaimed\<close> counts every finding with status \<open>'Claimed'\<close>, also one without
  \<open>url_user\<close>, which the loop never compares with the known keys. Here the registry is
  empty and the one finding is claimed without a URL: nothing is skipped as existing, and
  the page reports one platform as already added.
\<close>

theorem summary_counts_claimed_without_url:
  "processSearchResults (JObj [(''GitHub'', JObj [(''status'', JStr ''Claimed'')])])
     (initial (JObj [(''socials'', JObj [])]))
   = Inr ((initial (JObj [(''socials'', JObj [])]))
           \<lparr>searchError := JStr ''No new social accounts found (1 platforms already added)''\<rparr>)
   \<and> totalClaimed (JObj [(''GitHub'', JObj [(''status'', JStr ''Claimed'')])]) = 1
   \<and> filter (skipped_as_existing (existingSocials (JObj [(''socials'', JObj [])])))
        (object_entries (JObj [(''GitHub'', JObj [(''status'', JStr ''Claimed'')])])) = []"
proof (intro conjI)
  show "processSearchResults (JObj [(''GitHub'', JObj [(''status'', JStr ''Claimed'')])])
     (initial (JObj [(''socials'', JObj [])]))
   = Inr ((initial (JObj [(''socials'', JObj [])]))
           \<lparr>searchError := JStr ''No new social accounts found (1 platforms already added)''\<rparr>)"
    by code_simp
  show "totalClaimed (JObj [(''GitHub'', JObj [(''status'', JStr ''Claimed'')])]) = 1"
    by (simp add: totalClaimed_def object_values_def)
  show "filter (skipped_as_existing (existingSocials (JObj [(''socials'', JObj [])])))
        (object_entries (JObj [(''GitHub'', JObj [(''status'', JStr ''Claimed'')])])) = []"
    by (simp add: skipped_as_existing_def claimed_with_url_def)
qed

text \<open>
  Claim C7 says that a candidate's handle is the finding's \<open>username\<close> when present and
  the subject query of the search otherwise, and that Scenario A yields one candidate
  \<open>github\<close> whose handle is the subject query. On Scenario A (a claimed GitHub finding
  with a URL and no \<open>username\<close>, empty registry) the code emits no candidate: reading the
  fallback \<open>searchUsername\<close> raises a \<open>ReferenceError\<close>.
\<close>

theorem scenario_A_raises:
  "processSearchResults
     (JObj [(''GitHub'', JObj [(''status'', JStr ''Claimed''),
                               (''url_user'', JStr ''https://github.com/jdoe'')])])
     (initial (JObj [(''socials'', JObj [])]))
   = Inl (ReferenceError ''searchUsername is not defined'')"
  by code_simp



section \<open>Properties of polling\<close>

lemma reply_with_status:
  "get_prop v ''status'' = JStr s \<Longrightarrow> v \<noteq> JNull \<and> v \<noteq> JUndefined"
  by (cases v) simp_all

lemma poll_rejected:
  "stringifiable (searchJobId c) \<Longrightarrow> backend a = Rejected err \<Longrightarrow>
   poll m backend a c
     = catch_poll err (c\<lparr>effects := effects c @ [GetJobStatus (to_string (searchJobId c))]\<rparr>)"
  by (subst poll.simps) (simp add: Let_def)

lemma poll_failed:
  "stringifiable (searchJobId c) \<Longrightarrow> backend a = Reply v \<Longrightarrow>
   get_prop v ''status'' = JStr ''failed'' \<Longrightarrow>
   poll m backend a c =
     c\<lparr>searchJobStatus := Some ''Status: failed'',
       searchError := js_or (get_prop v ''error'') (JStr ''Search failed''),
       searchingAccounts := False, searchJobPolling := False,
       effects := effects c @ [GetJobStatus (to_string (searchJobId c)), LoadRecentJobs]\<rparr>"
  using reply_with_status [of v "''failed''"]
  by (subst poll.simps) (simp add: Let_def)

lemma poll_completed:
  "stringifiable (searchJobId c) \<Longrightarrow> backend a = Reply v \<Longrightarrow>
   get_prop v ''status'' = JStr ''completed'' \<Longrightarrow>
   poll m backend a c =
     (let c1 = c\<lparr>effects := effects c @ [GetJobStatus (to_string (searchJobId c))],
                  searchJobStatus := Some ''Status: completed''\<rparr>
      in case processSearchResults (get_prop v ''results'') c1 of
           Inl err \<Rightarrow> catch_poll err c1
         | Inr c2 \<Rightarrow> c2\<lparr>searchingAccounts := False, searchJobPolling := False,
                         effects := effects c2 @ [LoadRecentJobs]\<rparr>)"
  using reply_with_status [of v "''completed''"]
  by (subst poll.simps) (simp add: Let_def)

lemma poll_continue:
  "stringifiable (searchJobId c) \<Longrightarrow> backend a = Reply v \<Longrightarrow>
   get_prop v ''status'' = JStr ''pending'' \<or> get_prop v ''status'' = JStr ''running'' \<Longrightarrow>
   a + 1 < m \<Longrightarrow>
   poll m backend a c =
     poll m backend (a + 1)
       (c\<lparr>searchJobStatus := Some (status_label (get_prop v ''status'')),
          effects := effects c @ [GetJobStatus (to_string (searchJobId c)), SetTimeout 5000]\<rparr>)"
  using reply_with_status [of v "''pending''"] reply_with_status [of v "''running''"]
  by (subst poll.simps) (auto simp: Let_def status_label_def)

lemma poll_timeout:
  "stringifiable (searchJobId c) \<Longrightarrow> backend a = Reply v \<Longrightarrow>
   v \<noteq> JNull \<Longrightarrow> v \<noteq> JUndefined \<Longrightarrow> stringifiable (get_prop v ''status'') \<Longrightarrow>
   get_prop v ''status'' \<noteq> JStr ''completed'' \<Longrightarrow> get_prop v ''status'' \<noteq> JStr ''failed'' \<Longrightarrow>
   m \<le> a + 1 \<Longrightarrow>
   poll m backend a c =
     c\<lparr>searchJobStatus := Some (status_label (get_prop v ''status'')),
       searchError := JStr ''Search timed out - check results later'',
       searchingAccounts := False, searchJobPolling := False,
       effects := effects c @ [GetJobStatus (to_string (searchJobId c))]\<rparr>"
  by (subst poll.simps) (auto simp: Let_def status_label_def)

lemma poll_stalls:
  "stringifiable (searchJobId c) \<Longrightarrow> backend a = Reply v \<Longrightarrow>
   v \<noteq> JNull \<Longrightarrow> v \<noteq> JUndefined \<Longrightarrow> stringifiable (get_prop v ''status'') \<Longrightarrow>
   get_prop v ''status'' \<noteq> JStr ''completed'' \<Longrightarrow> get_prop v ''status'' \<noteq> JStr ''failed'' \<Longrightarrow>
   get_prop v ''status'' \<noteq> JStr ''pending'' \<Longrightarrow> get_prop v ''status'' \<noteq> JStr ''running'' \<Longrightarrow>
   a + 1 < m \<Longrightarrow>
   poll m backend a c =
     c\<lparr>searchJobStatus := Some (status_label (get_prop v ''status'')),
       effects := effects c @ [GetJobStatus (to_string (searchJobId c))]\<rparr>"
  by (subst poll.simps) (auto simp: Let_def status_label_def)

lemma poll_type_error:
  "stringifiable (searchJobId c) \<Longrightarrow> backend a = Reply v \<Longrightarrow>
   v = JNull \<or> v = JUndefined \<or> \<not> stringifiable (get_prop v ''status'') \<Longrightarrow>
   \<exists>err. poll m backend a c
     = catch_poll err (c\<lparr>effects := effects c @ [GetJobStatus (to_string (searchJobId c))]\<rparr>)"
  by (subst poll.simps) (auto simp: Let_def)

lemma poll_waits:
  assumes "\<forall>i<k. waiting (backend (a + i))" and "a + k < m" and "stringifiable (searchJobId c)"
  shows "\<exists>s. poll m backend a c =
              poll m backend (a + k)
                (c\<lparr>searchJobStatus := s,
                   effects := effects c
                     @ concat (replicate k [GetJobStatus (to_string (searchJobId c)), SetTimeout 5000])\<rparr>)"
  using assms
proof (induction k arbitrary: a c)
  case 0
  have "c\<lparr>searchJobStatus := searchJobStatus c,
          effects := effects c
            @ concat (replicate 0 [GetJobStatus (to_string (searchJobId c)), SetTimeout 5000])\<rparr> = c"
    by simp
  then show ?case
    by (metis add.right_neutral)
next
  case (Suc k)
  from Suc.prems(1) have "waiting (backend (a + 0))"
    by blast
  then obtain v where v: "backend a = Reply v"
    "get_prop v ''status'' = JStr ''pending'' \<or> get_prop v ''status'' = JStr ''running''"
    by (auto simp: waiting_def split: poll_reply.splits)
  let ?c1 = "c\<lparr>searchJobStatus := Some (status_label (get_prop v ''status'')),
          effects := effects c @ [GetJobStatus (to_string (searchJobId c)), SetTimeout 5000]\<rparr>"
  from Suc.prems(2,3) have step: "poll m backend a c = poll m backend (a + 1) ?c1"
    using v by (intro poll_continue) auto
  have "\<forall>i<k. waiting (backend (a + 1 + i))"
  proof (intro allI impI)
    fix i
    assume "i < k"
    then have "Suc i < Suc k"
      by simp
    with Suc.prems(1) have "waiting (backend (a + Suc i))"
      by blast
    then show "waiting (backend (a + 1 + i))"
      by simp
  qed
  moreover have "a + 1 + k < m"
    using Suc.prems(2) by simp
  moreover have "stringifiable (searchJobId ?c1)"
    using Suc.prems(3) by simp
  ultimately obtain s where
    "poll m backend (a + 1) ?c1 = poll m backend (a + 1 + k)
       (?c1\<lparr>searchJobStatus := s,
          effects := effects ?c1
            @ concat (replicate k [GetJobStatus (to_string (searchJobId ?c1)), SetTimeout 5000])\<rparr>)"
    using Suc.IH [of "a + 1" ?c1] by blast
  with step show ?case
    by (auto simp: add.assoc)
qed

lemma processSearchResults_frame:
  assumes "processSearchResults resultMap c = Inr c'"
  shows "effects c' = effects c \<and> searchJobId c' = searchJobId c \<and> person c' = person c
         \<and> searchingAccounts c' = searchingAccounts c \<and> searchJobPolling c' = searchJobPolling c"
proof (cases "scan_results (existingSocials (person c)) (object_entries resultMap) []")
  case (Inl err)
  with assms show ?thesis
    by (simp add: processSearchResults_def split: if_splits)
next
  case (Inr found)
  with assms show ?thesis
    by (auto simp: processSearchResults_def Let_def split: if_splits)
qed

lemma poll_completed_effects:
  assumes "stringifiable (searchJobId c)" and "backend a = Reply v"
    and "get_prop v ''status'' = JStr ''completed''"
  shows "\<exists>rest. effects (poll m backend a c)
                = effects c @ GetJobStatus (to_string (searchJobId c)) # rest
              \<and> (rest = [] \<or> rest = [LoadRecentJobs])
              \<and> \<not> searchingAccounts (poll m backend a c)
              \<and> \<not> searchJobPolling (poll m backend a c)"
proof -
  let ?c1 = "c\<lparr>effects := effects c @ [GetJobStatus (to_string (searchJobId c))],
               searchJobStatus := Some ''Status: completed''\<rparr>"
  show ?thesis
  proof (cases "processSearchResults (get_prop v ''results'') ?c1")
    case (Inl err)
    with assms show ?thesis
      by (simp add: poll_completed catch_poll_def)
  next
    case (Inr c2)
    from processSearchResults_frame [OF Inr] have "effects c2 = effects ?c1"
      by blast
    with assms Inr show ?thesis
      by (simp add: poll_completed)
  qed
qed

lemma count_polls_replicate:
  "length (filter (\<lambda>e. case e of GetJobStatus j \<Rightarrow> True | _ \<Rightarrow> False)
     (concat (replicate k [GetJobStatus j, SetTimeout d]))) = k"
  by (induction k) simp_all

lemma polls_issued_shape:
  assumes "effects c' = effects c @ concat (replicate k [GetJobStatus j, SetTimeout d])
             @ GetJobStatus j # rest"
    and "rest = [] \<or> rest = [LoadRecentJobs]"
  shows "polls_issued c' = polls_issued c + k + 1"
  using assms by (auto simp: polls_issued_def count_polls_replicate)

lemma polls_issued_searchJobPolling [simp]:
  "polls_issued (c\<lparr>searchJobPolling := b\<rparr>) = polls_issued c"
  by (simp add: polls_issued_def)

lemma poll_stop_effects:
  assumes id: "stringifiable (searchJobId c)" and stop: "\<not> (waiting (backend a) \<and> a + 1 < m)"
  shows "\<exists>rest. effects (poll m backend a c)
                = effects c @ GetJobStatus (to_string (searchJobId c)) # rest
              \<and> (rest = [] \<or> rest = [LoadRecentJobs])"
proof (cases "backend a")
  case (Rejected err)
  with id show ?thesis
    by (simp add: poll_rejected catch_poll_def)
next
  case (Reply v)
  let ?st = "get_prop v ''status''"
  consider (broken) "v = JNull \<or> v = JUndefined \<or> \<not> stringifiable ?st"
    | (completed) "?st = JStr ''completed''"
    | (failed) "?st = JStr ''failed''"
    | (timeout) "v \<noteq> JNull" "v \<noteq> JUndefined" "stringifiable ?st"
        "?st \<noteq> JStr ''completed''" "?st \<noteq> JStr ''failed''" "m \<le> a + 1"
    | (stall) "v \<noteq> JNull" "v \<noteq> JUndefined" "stringifiable ?st"
        "?st \<noteq> JStr ''completed''" "?st \<noteq> JStr ''failed''"
        "?st \<noteq> JStr ''pending''" "?st \<noteq> JStr ''running''" "a + 1 < m"
    using stop Reply by (fastforce simp: waiting_def)
  then show ?thesis
  proof cases
    case broken
    from poll_type_error [where c = c and backend = backend and a = a and v = v and m = m]
      id Reply broken
    show ?thesis
      by (auto simp: catch_poll_def)
  next
    case completed
    from poll_completed_effects [where c = c and backend = backend and a = a and v = v and m = m]
      id Reply completed
    show ?thesis
      by blast
  next
    case failed
    with id Reply show ?thesis
      by (simp add: poll_failed)
  next
    case timeout
    with id Reply show ?thesis
      by (simp add: poll_timeout)
  next
    case stall
    with id Reply show ?thesis
      by (simp add: poll_stalls)
  qed
qed

lemma poll_effects_shape:
  assumes "stringifiable (searchJobId c)"
  shows "\<exists>k rest. effects (poll m backend a c)
            = effects c
                @ concat (replicate k [GetJobStatus (to_string (searchJobId c)), SetTimeout 5000])
                @ GetJobStatus (to_string (searchJobId c)) # rest
          \<and> (rest = [] \<or> rest = [LoadRecentJobs]) \<and> a + k < max m (a + 1)"
  using assms
proof (induction "m - a" arbitrary: a c rule: less_induct)
  case less
  let ?G = "GetJobStatus (to_string (searchJobId c))"
  show ?case
  proof (cases "waiting (backend a) \<and> a + 1 < m")
    case False
    from poll_stop_effects [where c = c and backend = backend and a = a and m = m]
      less.prems False
    obtain rest where
      "effects (poll m backend a c) = effects c @ ?G # rest" and "rest = [] \<or> rest = [LoadRecentJobs]"
      by blast
    then show ?thesis
      by (intro exI [of _ 0] exI [of _ rest]) simp
  next
    case True
    then obtain v where v: "backend a = Reply v"
      "get_prop v ''status'' = JStr ''pending'' \<or> get_prop v ''status'' = JStr ''running''"
      by (auto simp: waiting_def split: poll_reply.splits)
    let ?c1 = "c\<lparr>searchJobStatus := Some (status_label (get_prop v ''status'')),
                 effects := effects c @ [?G, SetTimeout 5000]\<rparr>"
    from True v less.prems have step: "poll m backend a c = poll m backend (a + 1) ?c1"
      by (intro poll_continue) auto
    from True have "m - (a + 1) < m - a"
      by auto
    moreover have "stringifiable (searchJobId ?c1)"
      using less.prems by simp
    ultimately obtain k rest where
      e: "effects (poll m backend (a + 1) ?c1)
            = effects ?c1 @ concat (replicate k [?G, SetTimeout 5000]) @ ?G # rest"
      and rest: "rest = [] \<or> rest = [LoadRecentJobs]" and k: "a + 1 + k < max m (a + 1 + 1)"
      using less.hyps [of "a + 1" ?c1] by auto
    from e have "effects (poll m backend a c)
            = effects c @ concat (replicate (Suc k) [?G, SetTimeout 5000]) @ ?G # rest"
      by (simp add: step)
    moreover from k True have "a + Suc k < max m (a + 1)"
      by simp
    ultimately show ?thesis
      using rest by blast
  qed
qed

lemma pollSearchResults_poll:
  "searchJobId c = JStr jobId \<Longrightarrow> jobId \<noteq> [] \<Longrightarrow>
   pollSearchResults backend c = poll 60 backend 0 (c\<lparr>searchJobPolling := True\<rparr>)"
  by (simp add: pollSearchResults_def)

lemma poll_terminal_after_waits:
  assumes w: "\<forall>i<n. waiting (backend i)" and t: "terminal (backend n)" and n: "n < m"
    and id: "stringifiable (searchJobId c)"
  shows "\<exists>rest. effects (poll m backend 0 c)
            = effects c
                @ concat (replicate n [GetJobStatus (to_string (searchJobId c)), SetTimeout 5000])
                @ GetJobStatus (to_string (searchJobId c)) # rest
          \<and> (rest = [] \<or> rest = [LoadRecentJobs])
          \<and> \<not> searchingAccounts (poll m backend 0 c)
          \<and> \<not> searchJobPolling (poll m backend 0 c)"
proof -
  let ?G = "GetJobStatus (to_string (searchJobId c))"
  from w n id obtain s where
    run: "poll m backend 0 c = poll m backend (0 + n)
            (c\<lparr>searchJobStatus := s,
               effects := effects c @ concat (replicate n [?G, SetTimeout 5000])\<rparr>)"
    using poll_waits [of n backend 0 m c] by auto
  let ?c1 = "c\<lparr>searchJobStatus := s,
               effects := effects c @ concat (replicate n [?G, SetTimeout 5000])\<rparr>"
  have id1: "stringifiable (searchJobId ?c1)"
    using id by simp
  from t obtain v where v: "backend n = Reply v"
    and cases: "get_prop v ''status'' = JStr ''completed'' \<or> get_prop v ''status'' = JStr ''failed''"
    by (auto simp: terminal_def split: poll_reply.splits)
  from cases show ?thesis
  proof
    assume "get_prop v ''status'' = JStr ''completed''"
    from poll_completed_effects [where c = ?c1 and backend = backend and a = n and v = v and m = m]
      id1 v this run
    show ?thesis
      by auto
  next
    assume "get_prop v ''status'' = JStr ''failed''"
    with id1 v run show ?thesis
      by (simp add: poll_failed)
  qed
qed




lemma error_report_is_timeout_text:
  "(or_else m ''Failed to check search status'' = ''Search timed out - check results later'')
     = (m = ''Search timed out - check results later'')"
  by (auto simp: or_else_def)


section \<open>The claims about polling\<close>

text \<open>
  Claim C5. \<open>pollSearchResults\<close> issues its status requests one timer of 5000
  milliseconds (5 seconds) apart and issues at most 60 of them, whatever the backend
  answers: the effects it adds are \<open>k < 60\<close> pairs of a request and a timer, one more
  request, and then at most the reload of the recent jobs. When the first \<open>n\<close> answers
  say pending or running and answer number \<open>n\<close> says completed or failed, exactly
  \<open>n + 1\<close> requests are issued, nothing follows the last one but that reload, and the
  page has stopped searching. (The job id is a non-empty string, as the backend assigns
  it.)
\<close>

theorem pollSearchResults_schedule:
  assumes "searchJobId c = JStr jobId" and "jobId \<noteq> []"
  shows "(\<exists>k rest. effects (pollSearchResults backend c)
             = effects c @ concat (replicate k [GetJobStatus jobId, SetTimeout 5000])
                 @ GetJobStatus jobId # rest
           \<and> (rest = [] \<or> rest = [LoadRecentJobs]) \<and> k < 60)
         \<and> ((\<forall>i<n. waiting (backend i)) \<and> terminal (backend n) \<and> n < 60 \<longrightarrow>
              (\<exists>rest. effects (pollSearchResults backend c)
                 = effects c @ concat (replicate n [GetJobStatus jobId, SetTimeout 5000])
                     @ GetJobStatus jobId # rest
               \<and> (rest = [] \<or> rest = [LoadRecentJobs]))
              \<and> polls_issued (pollSearchResults backend c) = polls_issued c + n + 1
              \<and> \<not> searchingAccounts (pollSearchResults backend c)
              \<and> \<not> searchJobPolling (pollSearchResults backend c))"
proof (intro conjI impI)
  let ?c0 = "c\<lparr>searchJobPolling := True\<rparr>"
  have run: "pollSearchResults backend c = poll 60 backend 0 ?c0"
    using assms by (rule pollSearchResults_poll)
  have id: "stringifiable (searchJobId ?c0)"
    using assms by simp
  from poll_effects_shape [OF id, of 60 backend 0] assms
  show "\<exists>k rest. effects (pollSearchResults backend c)
             = effects c @ concat (replicate k [GetJobStatus jobId, SetTimeout 5000])
                 @ GetJobStatus jobId # rest
           \<and> (rest = [] \<or> rest = [LoadRecentJobs]) \<and> k < 60"
    by (simp add: run)
  assume h: "(\<forall>i<n. waiting (backend i)) \<and> terminal (backend n) \<and> n < 60"
  with poll_terminal_after_waits [of n backend 60 ?c0] assms
  obtain rest where e: "effects (pollSearchResults backend c)
            = effects c @ concat (replicate n [GetJobStatus jobId, SetTimeout 5000])
                @ GetJobStatus jobId # rest"
    and rest: "rest = [] \<or> rest = [LoadRecentJobs]"
    and flags: "\<not> searchingAccounts (pollSearchResults backend c)"
      "\<not> searchJobPolling (pollSearchResults backend c)"
    by (auto simp: run)
  from e rest show "\<exists>rest. effects (pollSearchResults backend c)
                 = effects c @ concat (replicate n [GetJobStatus jobId, SetTimeout 5000])
                     @ GetJobStatus jobId # rest
               \<and> (rest = [] \<or> rest = [LoadRecentJobs])"
    by blast
  from e rest show "polls_issued (pollSearchResults backend c) = polls_issued c + n + 1"
    by (rule polls_issued_shape)
  from flags show "\<not> searchingAccounts (pollSearchResults backend c)"
    "\<not> searchJobPolling (pollSearchResults backend c)"
    by simp_all
qed

text \<open>Scenario C: three answers say running, the fourth says completed.\<close>

theorem pollSearchResults_schedule_witness:
  "searchJobId (queued ''job-1'' (JObj [])) = JStr ''job-1''
   \<and> polls_issued (pollSearchResults
        (\<lambda>k. if k < 3 then Reply (JObj [(''status'', JStr ''running'')])
              else Reply (JObj [(''status'', JStr ''completed''), (''results'', JObj [])]))
        (queued ''job-1'' (JObj []))) = 4
   \<and> \<not> searchJobPolling (pollSearchResults
        (\<lambda>k. if k < 3 then Reply (JObj [(''status'', JStr ''running'')])
              else Reply (JObj [(''status'', JStr ''completed''), (''results'', JObj [])]))
        (queued ''job-1'' (JObj [])))"
proof -
  let ?backend = "\<lambda>k::nat. if k < 3 then Reply (JObj [(''status'', JStr ''running'')])
              else Reply (JObj [(''status'', JStr ''completed''), (''results'', JObj [])])"
  let ?c = "queued ''job-1'' (JObj [])"
  have j: "searchJobId ?c = JStr ''job-1''" and ne: "''job-1'' \<noteq> []"
    by (simp_all add: queued_def initial_def)
  have w: "\<forall>i<3. waiting (?backend i)"
    by (simp add: waiting_def)
  have t: "terminal (?backend 3)"
    by (simp add: terminal_def)
  have p0: "polls_issued ?c = 0"
    by (simp add: polls_issued_def queued_def initial_def)
  from pollSearchResults_schedule [OF j ne, of ?backend 3] w t p0
  have "polls_issued (pollSearchResults ?backend ?c) = 4
        \<and> \<not> searchJobPolling (pollSearchResults ?backend ?c)"
    by simp
  with j show ?thesis
    by simp
qed




text \<open>
  Claim C3 says that an error of a single status request does not end the tracking, that
  the request is retried after the interval and that the error stays invisible until the
  budget is used up. The code does none of this: where the first request is rejected and
  the second would find the job completed, one request is issued, the error's message is
  shown at once and the tracking is over.
\<close>

theorem poll_error_not_retried:
  "polls_issued (pollSearchResults
     (\<lambda>k. if k = 0 then Rejected (Error ''network down'')
           else Reply (JObj [(''status'', JStr ''completed''), (''results'', JObj [])]))
     (queued ''job-1'' (JObj []))) = 1
   \<and> pollSearchResults
     (\<lambda>k. if k = 0 then Rejected (Error ''network down'')
           else Reply (JObj [(''status'', JStr ''completed''), (''results'', JObj [])]))
     (queued ''job-1'' (JObj []))
     = (queued ''job-1'' (JObj []))
         \<lparr>searchError := JStr ''network down'', searchingAccounts := False,
          effects := [GetJobStatus ''job-1'']\<rparr>"
  by code_simp

text \<open>
  Claim C3, as the code has it. When the first \<open>k < 60\<close> answers say pending or running
  and request number \<open>k\<close> is rejected, \<open>pollSearchResults\<close> stops there: it has issued
  \<open>k + 1\<close> requests, no further one follows, \<open>searchError\<close> is the message of the error
  (or \<open>Failed to check search status\<close> when the message is empty) and both flags are
  cleared. This report is the time-out report exactly when the message of the error is
  the text \<open>Search timed out - check results later\<close>.
\<close>

theorem pollSearchResults_error_aborts:
  assumes "searchJobId c = JStr jobId" and "jobId \<noteq> []"
    and "\<forall>i<k. waiting (backend i)" and "backend k = Rejected err" and "k < 60"
  shows "(\<exists>s. pollSearchResults backend c =
               c\<lparr>searchJobStatus := s,
                 searchError := JStr (or_else (message err) ''Failed to check search status''),
                 searchingAccounts := False, searchJobPolling := False,
                 effects := effects c
                   @ concat (replicate k [GetJobStatus jobId, SetTimeout 5000])
                   @ [GetJobStatus jobId]\<rparr>)
         \<and> polls_issued (pollSearchResults backend c) = polls_issued c + k + 1
         \<and> (searchError (pollSearchResults backend c)
              = JStr ''Search timed out - check results later'')
           = (message err = ''Search timed out - check results later'')"
proof -
  let ?c0 = "c\<lparr>searchJobPolling := True\<rparr>"
  let ?G = "GetJobStatus jobId"
  have start: "pollSearchResults backend c = poll 60 backend 0 ?c0"
    using assms(1,2) by (rule pollSearchResults_poll)
  have id: "stringifiable (searchJobId ?c0)"
    using assms(1) by simp
  from assms(3,5) have "\<forall>i<k. waiting (backend (0 + i))" and "0 + k < (60::nat)"
    by simp_all
  from poll_waits [OF this id] assms(1) obtain s where
    run: "poll 60 backend 0 ?c0 = poll 60 backend k
            (c\<lparr>searchJobPolling := True, searchJobStatus := s,
               effects := effects c @ concat (replicate k [?G, SetTimeout 5000])\<rparr>)"
    by auto
  let ?c1 = "c\<lparr>searchJobPolling := True, searchJobStatus := s,
               effects := effects c @ concat (replicate k [?G, SetTimeout 5000])\<rparr>"
  have "poll 60 backend k ?c1
          = catch_poll err (?c1\<lparr>effects := effects ?c1 @ [GetJobStatus (to_string (searchJobId ?c1))]\<rparr>)"
    using assms(1,4) by (intro poll_rejected) simp_all
  then have final: "pollSearchResults backend c =
               c\<lparr>searchJobStatus := s,
                 searchError := JStr (or_else (message err) ''Failed to check search status''),
                 searchingAccounts := False, searchJobPolling := False,
                 effects := effects c @ concat (replicate k [?G, SetTimeout 5000]) @ [?G]\<rparr>"
    using assms(1) by (simp add: start run catch_poll_def)
  have "polls_issued (pollSearchResults backend c) = polls_issued c + k + 1"
    by (rule polls_issued_shape [where rest = "[]" and j = jobId and d = 5000])
      (simp_all add: final)
  moreover have "(searchError (pollSearchResults backend c)
              = JStr ''Search timed out - check results later'')
           = (message err = ''Search timed out - check results later'')"
    by (simp add: final error_report_is_timeout_text)
  ultimately show ?thesis
    using final by blast
qed

text \<open>An instance: one pending answer, then a rejection without message.\<close>

theorem pollSearchResults_error_aborts_witness:
  "searchJobId (queued ''job-1'' (JObj [])) = JStr ''job-1''
   \<and> polls_issued (pollSearchResults
        (\<lambda>k. if k = 0 then Reply (JObj [(''status'', JStr ''pending'')])
              else Rejected (Error []))
        (queued ''job-1'' (JObj []))) = 2
   \<and> searchError (pollSearchResults
        (\<lambda>k. if k = 0 then Reply (JObj [(''status'', JStr ''pending'')])
              else Rejected (Error []))
        (queued ''job-1'' (JObj []))) = JStr ''Failed to check search status''"
proof -
  let ?backend = "\<lambda>k::nat. if k = 0 then Reply (JObj [(''status'', JStr ''pending'')])
              else Rejected (Error [])"
  let ?c = "queued ''job-1'' (JObj [])"
  have j: "searchJobId ?c = JStr ''job-1''" and ne: "''job-1'' \<noteq> []"
    by (simp_all add: queued_def initial_def)
  have w: "\<forall>i<1. waiting (?backend i)"
    by (simp add: waiting_def)
  have r: "?backend 1 = Rejected (Error [])"
    by simp
  have one: "(1::nat) < 60"
    by simp
  have p0: "polls_issued ?c = 0"
    by (simp add: polls_issued_def queued_def initial_def)
  note inst = pollSearchResults_error_aborts [OF j ne w r one]
  from inst p0 have "polls_issued (pollSearchResults ?backend ?c) = 2"
    by simp
  moreover from inst have "searchError (pollSearchResults ?backend ?c)
                           = JStr ''Failed to check search status''"
    by (auto simp: or_else_def)
  ultimately show ?thesis
    using j by simp
qed


end
